theory Spec2Isabelle
  imports Main "HOL-Library.Sublist"
begin

section \<open>Compaction guard: a shallow embedding of \<open>extensions/compaction-guard/index.ts\<close>\<close>

text \<open>
  The plugin hooks three lifecycle points of the host agent: \<open>before_compaction\<close> saves a
  digest of the running conversation to one file, \<open>after_compaction\<close> marks the session as
  owing a recovery, and \<open>before_agent_start\<close> injects the recovery prompt and the saved
  digest into the next turn.

  Conventions of the embedding.
  \<^item> A JavaScript string is a \<open>string\<close>; one \<open>char\<close> stands for one UTF-16 code unit,
    so \<open>length\<close> is \<open>.length\<close> and \<open>take n\<close> is \<open>.slice(0, n)\<close>.
  \<^item> A value of type \<open>unknown\<close> is a \<open>jsval\<close>.
  \<^item> The module-level \<open>state\<close> object and the \<open>needsRecovery\<close> set of one
    registration are the fields of one record, passed through every handler.
  \<^item> \<open>Date.now()\<close> and \<open>new Date().toISOString()\<close> are inputs of the handler that
    reads them.
  \<^item> A promise that rejects is the \<open>Inl\<close> of a sum, one that resolves is the \<open>Inr\<close>.
\<close>

subsection \<open>JavaScript values\<close>

datatype jsval =
    JUndefined
  | JNull
  | JBool bool
  | JNum int
  | JStr string
  | JArr "jsval list"
  | JObj "(string \<times> jsval) list"

text \<open>\<open>!v\<close> is \<open>\<not> truthy v\<close>. Numbers are never inspected beyond this test.\<close>

fun truthy :: "jsval \<Rightarrow> bool" where
  "truthy JUndefined = False"
| "truthy JNull = False"
| "truthy (JBool b) = b"
| "truthy (JNum n) = (n \<noteq> 0)"
| "truthy (JStr s) = (s \<noteq> [])"
| "truthy (JArr xs) = True"
| "truthy (JObj fs) = True"

text \<open>\<open>typeof v === "object"\<close>: true of objects, arrays and \<open>null\<close>.\<close>

fun typeof_object :: "jsval \<Rightarrow> bool" where
  "typeof_object JNull = True"
| "typeof_object (JArr xs) = True"
| "typeof_object (JObj fs) = True"
| "typeof_object v = False"

text \<open>\<open>typeof v === "string"\<close>, and the string such a value is.\<close>

fun typeof_string :: "jsval \<Rightarrow> bool" where
  "typeof_string (JStr s) = True"
| "typeof_string v = False"

fun string_of :: "jsval \<Rightarrow> string" where
  "string_of (JStr s) = s"
| "string_of v = []"

text \<open>
  Property read \<open>v.name\<close> for the names the plugin reads (\<open>role\<close>, \<open>content\<close>,
  \<open>type\<close>, \<open>text\<close>): the stored value of an object, \<open>undefined\<close> when the object has
  no such property, and \<open>undefined\<close> on an array, which has none of these names.
\<close>

fun get_prop :: "jsval \<Rightarrow> string \<Rightarrow> jsval" where
  "get_prop (JObj fs) name = (case map_of fs name of Some v \<Rightarrow> v | None \<Rightarrow> JUndefined)"
| "get_prop v name = JUndefined"

subsection \<open>String helpers\<close>

text \<open>\<open>parts.join(sep)\<close> on an array of strings.\<close>

fun join :: "string \<Rightarrow> string list \<Rightarrow> string" where
  "join sep [] = []"
| "join sep [x] = x"
| "join sep (x # y # ys) = x @ sep @ join sep (y # ys)"

text \<open>\<open>xs.slice(-n)\<close>: the last \<open>n\<close> elements, all of them when there are fewer.\<close>

definition slice_last :: "nat \<Rightarrow> 'a list \<Rightarrow> 'a list" where
  "slice_last n xs = drop (length xs - n) xs"

text \<open>\<open>s.length > n ? s.slice(0, n) + "..." : s\<close>.\<close>

definition truncate_to :: "nat \<Rightarrow> string \<Rightarrow> string" where
  "truncate_to n s = (if length s > n then take n s @ ''...'' else s)"

text \<open>
  The regular expression \<open>/working on|creating|building|fixing|implementing|investigating/i\<close>.
  Its alternatives are plain ASCII words, so \<open>test\<close> is a search for one of them as a
  contiguous run of the text; the flag \<open>i\<close> folds the case of the letters A to Z and of no
  other code unit.
\<close>

definition lower_ascii :: "char \<Rightarrow> char" where
  "lower_ascii c =
     (case map_of (zip ''ABCDEFGHIJKLMNOPQRSTUVWXYZ'' ''abcdefghijklmnopqrstuvwxyz'') c of
        Some l \<Rightarrow> l
      | None \<Rightarrow> c)"

definition task_alternatives :: "string list" where
  "task_alternatives =
     [''working on'', ''creating'', ''building'', ''fixing'', ''implementing'', ''investigating'']"

definition task_indicator_test :: "string \<Rightarrow> bool" where
  "task_indicator_test text =
     list_ex (\<lambda>alt. sublist alt (map lower_ascii text)) task_alternatives"

text \<open>The template literal \<open>${n}\<close> of a non-negative integer: its decimal digits.\<close>

fun show_nat :: "nat \<Rightarrow> string" where
  "show_nat n =
     (if n < 10 then [''0123456789'' ! n]
      else show_nat (n div 10) @ [''0123456789'' ! (n mod 10)])"

declare show_nat.simps [simp del]

subsection \<open>Text Extractor: \<open>extractTextContent\<close>\<close>

text \<open>
  The body of the loop over the blocks of an array content, with \<open>textParts\<close> as its
  accumulator: a block that is truthy and an object, whose \<open>type\<close> is the string
  \<open>text\<close> and whose \<open>text\<close> is a string, has its \<open>text\<close> pushed.
\<close>

definition visitBlock :: "jsval \<Rightarrow> string list \<Rightarrow> string list" where
  "visitBlock block textParts =
     (if truthy block \<and> typeof_object block then
        (if get_prop block ''type'' = JStr ''text'' \<and> typeof_string (get_prop block ''text'')
         then textParts @ [string_of (get_prop block ''text'')]
         else textParts)
      else textParts)"

fun collectTextParts :: "jsval list \<Rightarrow> string list \<Rightarrow> string list" where
  "collectTextParts [] textParts = textParts"
| "collectTextParts (block # rest) textParts =
     collectTextParts rest (visitBlock block textParts)"

text \<open>
  \<open>null\<close> is \<open>None\<close>. The array branch returns \<open>textParts.join("\n") || null\<close>: an empty
  joined string is falsy and becomes \<open>null\<close>.
\<close>

definition extractTextContent :: "jsval \<Rightarrow> string option" where
  "extractTextContent content =
     (case content of
        JStr s \<Rightarrow> Some s
      | JArr blocks \<Rightarrow>
          (let joined = join ''\<newline>'' (collectTextParts blocks [])
           in if joined = [] then None else Some joined)
      | _ \<Rightarrow> None)"

subsection \<open>Task-Context Summarizer: \<open>extractTaskContext\<close>\<close>

text \<open>The body of the loop over the recent messages; \<open>continue\<close> leaves the parts as they are.\<close>

definition visitMessage :: "jsval \<Rightarrow> string list \<Rightarrow> string list" where
  "visitMessage msg contextParts =
     (if \<not> truthy msg \<or> \<not> typeof_object msg then contextParts
      else
        let role = get_prop msg ''role'';
            content = get_prop msg ''content''
        in if role = JStr ''user'' \<and> typeof_string content then
             contextParts @ [''User: '' @ truncate_to 500 (string_of content)]
           else if role = JStr ''assistant'' then
             (case extractTextContent content of
                None \<Rightarrow> contextParts
              | Some text \<Rightarrow>
                  if text \<noteq> [] \<and> task_indicator_test text
                  then contextParts @ [''Assistant: '' @ truncate_to 300 text]
                  else contextParts)
           else contextParts)"

fun collectContextParts :: "jsval list \<Rightarrow> string list \<Rightarrow> string list" where
  "collectContextParts [] contextParts = contextParts"
| "collectContextParts (msg # rest) contextParts =
     collectContextParts rest (visitMessage msg contextParts)"

definition extractTaskContext :: "jsval \<Rightarrow> string option" where
  "extractTaskContext messages =
     (case messages of
        JArr ms \<Rightarrow>
          if length ms = 0 then None
          else
            let recentMessages = slice_last 20 ms;
                contextParts = collectContextParts recentMessages []
            in if length contextParts = 0 then None
               else Some (join ''\<newline>\<newline>'' (slice_last 5 contextParts))
      | _ \<Rightarrow> None)"

subsection \<open>The file system under the Context Store\<close>

text \<open>
  \<open>node:fs/promises\<close> is outside the repository. Its state here is the content of every
  regular file by path, and for each path whether the system refuses to create its parent
  directories, to write it, to read it or to unlink it (a permission, a read-only mount).
  Directories are not tracked, and a refused operation leaves the files as they were.
\<close>

record filesystem =
  files :: "string \<Rightarrow> string option"
  mkdir_denied :: "string \<Rightarrow> bool"
  write_denied :: "string \<Rightarrow> bool"
  read_denied :: "string \<Rightarrow> bool"
  unlink_denied :: "string \<Rightarrow> bool"

datatype io_error = ENOENT | EACCES

text \<open>\<open>fs.mkdir(path.dirname(p), { recursive: true })\<close>.\<close>

definition fs_mkdir_parent :: "filesystem \<Rightarrow> string \<Rightarrow> io_error + filesystem" where
  "fs_mkdir_parent fs p = (if mkdir_denied fs p then Inl EACCES else Inr fs)"

definition fs_writeFile :: "filesystem \<Rightarrow> string \<Rightarrow> string \<Rightarrow> io_error + filesystem" where
  "fs_writeFile fs p content =
     (if write_denied fs p then Inl EACCES
      else Inr (fs\<lparr>files := (files fs)(p \<mapsto> content)\<rparr>))"

definition fs_readFile :: "filesystem \<Rightarrow> string \<Rightarrow> io_error + string" where
  "fs_readFile fs p =
     (case files fs p of
        None \<Rightarrow> Inl ENOENT
      | Some content \<Rightarrow> if read_denied fs p then Inl EACCES else Inr content)"

definition fs_unlink :: "filesystem \<Rightarrow> string \<Rightarrow> io_error + filesystem" where
  "fs_unlink fs p =
     (case files fs p of
        None \<Rightarrow> Inl ENOENT
      | Some content \<Rightarrow>
          if unlink_denied fs p then Inl EACCES
          else Inr (fs\<lparr>files := (files fs)(p := None)\<rparr>))"

subsection \<open>Context Store: \<open>saveContext\<close>, \<open>loadContext\<close>, \<open>clearContext\<close>\<close>

text \<open>The template of the snapshot; \<open>stamp\<close> is \<open>new Date().toISOString()\<close>.\<close>

definition snapshot_text :: "string \<Rightarrow> string \<Rightarrow> nat \<Rightarrow> string" where
  "snapshot_text stamp context compactionCount =
     ''# Compaction Recovery Context\<newline>\<newline>*Auto-saved at: '' @ stamp @
     ''*\<newline>*Compaction #'' @ show_nat compactionCount @
     ''*\<newline>\<newline>## Recent Activity\<newline>\<newline>'' @ context @
     ''\<newline>\<newline>---\<newline>\<newline>'' @
     ''**Note:** This context was automatically saved before memory compaction.\<newline>'' @
     ''If you're reading this, compaction just ran. Review the above to understand\<newline>'' @
     ''what was happening before context was compressed.\<newline>''"

definition saveContext ::
  "filesystem \<Rightarrow> string \<Rightarrow> string \<Rightarrow> nat \<Rightarrow> string \<Rightarrow> io_error + filesystem" where
  "saveContext fs contextPath context compactionCount stamp =
     (let content = snapshot_text stamp context compactionCount
      in case fs_mkdir_parent fs contextPath of
           Inl err \<Rightarrow> Inl err
         | Inr fs1 \<Rightarrow> fs_writeFile fs1 contextPath content)"

text \<open>\<open>try { return await fs.readFile(...) } catch { return null }\<close>.\<close>

definition loadContext :: "filesystem \<Rightarrow> string \<Rightarrow> io_error + string option" where
  "loadContext fs contextPath =
     (case fs_readFile fs contextPath of
        Inr content \<Rightarrow> Inr (Some content)
      | Inl err \<Rightarrow> Inr None)"

text \<open>\<open>try { await fs.unlink(...) } catch { }\<close>: every error of the unlink is dropped.\<close>

definition clearContext :: "filesystem \<Rightarrow> string \<Rightarrow> io_error + filesystem" where
  "clearContext fs contextPath =
     (case fs_unlink fs contextPath of
        Inr fs1 \<Rightarrow> Inr fs1
      | Inl err \<Rightarrow> Inr fs)"

subsection \<open>Configuration and recovery state\<close>

record config =
  contextFile :: "string option"
  recoveryPrompt :: "bool option"
  minMessagesForSnapshot :: "int option"

text \<open>
  What \<open>register\<close> computes once from the configuration. \<open>resolveContextPath\<close> reads the
  environment and the home directory; its result is taken as given.
\<close>

record plugin_instance =
  contextPath :: string
  minMessages :: int
  injectRecovery :: bool

definition register :: "config \<Rightarrow> string \<Rightarrow> plugin_instance" where
  "register cfg resolvedPath =
     \<lparr>contextPath = resolvedPath,
      minMessages = (case minMessagesForSnapshot cfg of None \<Rightarrow> 10 | Some n \<Rightarrow> n),
      injectRecovery = (recoveryPrompt cfg \<noteq> Some False)\<rparr>"

text \<open>
  The \<open>state\<close> object of the module and the set \<open>needsRecovery\<close> of the registration.
  \<open>compactionCount\<close> only counts up from 0, so it is a \<open>nat\<close>.
\<close>

record guard_state =
  compactionJustHappened :: bool
  lastCompactionTime :: int
  compactionCount :: nat
  savedContext :: "string option"
  needsRecovery :: "string set"

definition initial_state :: guard_state where
  "initial_state =
     \<lparr>compactionJustHappened = False, lastCompactionTime = 0, compactionCount = 0,
      savedContext = None, needsRecovery = {}\<rparr>"

text \<open>
  The prompt after \<open>trim()\<close>. Its warning sign (U+26A0 U+FE0F) is written as the six bytes
  of its UTF-8 form; nothing looks inside the prompt.
\<close>

definition RECOVERY_PROMPT :: string where
  \<open>RECOVERY_PROMPT =
     ''## '' @ [CHR 0xE2, CHR 0x9A, CHR 0xA0, CHR 0xEF, CHR 0xB8, CHR 0x8F] @
     '' COMPACTION RECOVERY\<newline>\<newline>'' @
     ''Memory compaction just ran. Your previous context was compressed.\<newline>\<newline>'' @
     ''**What to do:**\<newline>'' @
     ''1. Check `memory/compaction-context.md` for saved task state\<newline>'' @
     ''2. Check `memory/session-context.md` for current task info\<newline>'' @
     ''3. If mid-task, review what you were doing and continue\<newline>'' @
     ''4. If unclear, ask: "I think compaction just ran. What were we working on?"\<newline>\<newline>'' @
     ''**Do not** pretend you know what was happening if context is unclear.''\<close>

subsection \<open>Lifecycle Coordinator: the three hooks\<close>

record compaction_event =
  messageCount :: "int option"
  messages :: jsval

text \<open>\<open>event.messageCount ?? 0\<close> and \<open>event.sessionKey ?? "default"\<close>.\<close>

definition messageCount_or_0 :: "compaction_event \<Rightarrow> int" where
  "messageCount_or_0 event = (case messageCount event of None \<Rightarrow> 0 | Some n \<Rightarrow> n)"

definition sessionKey_or_default :: "string option \<Rightarrow> string" where
  "sessionKey_or_default key = (case key of None \<Rightarrow> ''default'' | Some k \<Rightarrow> k)"

text \<open>
  \<open>before_compaction\<close>, with \<open>now\<close> the reading of \<open>Date.now()\<close> and \<open>stamp\<close> that of
  \<open>toISOString()\<close>. A failed save is caught and logged: the counters keep their new
  values, \<open>savedContext\<close> and the files keep their old ones.
\<close>

definition before_compaction ::
  "plugin_instance \<Rightarrow> compaction_event \<Rightarrow> int \<Rightarrow> string \<Rightarrow>
   guard_state \<times> filesystem \<Rightarrow> guard_state \<times> filesystem" where
  "before_compaction p event now stamp sf =
     (let st = fst sf; fs = snd sf; count = messageCount_or_0 event
      in if count < minMessages p then (st, fs)
         else
           let st1 = st\<lparr>compactionCount := compactionCount st + 1,
                        compactionJustHappened := True,
                        lastCompactionTime := now\<rparr>
           in case messages event of
                JArr ms \<Rightarrow>
                  if length ms > 0 then
                    (case extractTaskContext (JArr ms) of
                       None \<Rightarrow> (st1, fs)
                     | Some context \<Rightarrow>
                         if context = [] then (st1, fs)
                         else
                           (case saveContext fs (contextPath p) context
                                   (compactionCount st1) stamp of
                              Inr fs1 \<Rightarrow> (st1\<lparr>savedContext := Some context\<rparr>, fs1)
                            | Inl err \<Rightarrow> (st1, fs)))
                  else (st1, fs)
              | _ \<Rightarrow> (st1, fs))"

definition after_compaction :: "string option \<Rightarrow> guard_state \<Rightarrow> guard_state" where
  "after_compaction key st =
     (let sessionKey = sessionKey_or_default key
      in st\<lparr>needsRecovery := insert sessionKey (needsRecovery st)\<rparr>)"

record agent_start_result =
  prependContext :: string

text \<open>
  \<open>before_agent_start\<close> returns the state it leaves and what the handler resolves to:
  \<open>Inr None\<close> is \<open>undefined\<close>. It reads the file and never writes it.
\<close>

definition before_agent_start ::
  "plugin_instance \<Rightarrow> string option \<Rightarrow> int \<Rightarrow> filesystem \<Rightarrow> guard_state \<Rightarrow>
   guard_state \<times> (io_error + agent_start_result option)" where
  "before_agent_start p key now fs st =
     (let sessionKey = sessionKey_or_default key
      in if sessionKey \<notin> needsRecovery st \<and>
            (now - lastCompactionTime st > 60000 \<or> \<not> compactionJustHappened st)
         then (st, Inr None)
         else
           let st1 = st\<lparr>needsRecovery := needsRecovery st - {sessionKey},
                        compactionJustHappened := False\<rparr>
           in if \<not> injectRecovery p then (st1, Inr None)
              else
                (case loadContext fs (contextPath p) of
                   Inl err \<Rightarrow> (st1, Inl err)
                 | Inr None \<Rightarrow> (st1, Inr (Some \<lparr>prependContext = RECOVERY_PROMPT\<rparr>))
                 | Inr (Some saved) \<Rightarrow>
                     if saved \<noteq> [] then
                       (st1, Inr (Some \<lparr>prependContext =
                          RECOVERY_PROMPT @
                          ''\<newline>\<newline>---\<newline>\<newline>**Saved Context:**\<newline>\<newline>'' @
                          saved\<rparr>))
                     else (st1, Inr (Some \<lparr>prependContext = RECOVERY_PROMPT\<rparr>))))"

subsection \<open>The host: a sequence of hook calls\<close>

datatype hook_call =
    BeforeCompaction compaction_event int string
  | AfterCompaction "string option"
  | BeforeAgentStart "string option" int

fun dispatch ::
  "plugin_instance \<Rightarrow> hook_call \<Rightarrow> guard_state \<times> filesystem \<Rightarrow> guard_state \<times> filesystem" where
  "dispatch p (BeforeCompaction event now stamp) sf = before_compaction p event now stamp sf"
| "dispatch p (AfterCompaction key) sf = (after_compaction key (fst sf), snd sf)"
| "dispatch p (BeforeAgentStart key now) sf =
     (fst (before_agent_start p key now (snd sf) (fst sf)), snd sf)"

fun run ::
  "plugin_instance \<Rightarrow> hook_call list \<Rightarrow> guard_state \<times> filesystem \<Rightarrow> guard_state \<times> filesystem" where
  "run p [] sf = sf"
| "run p (c # cs) sf = run p cs (dispatch p c sf)"

text \<open>A qualifying compaction is a \<open>before_compaction\<close> call that passes the size gate.\<close>

fun qualifying :: "plugin_instance \<Rightarrow> hook_call \<Rightarrow> bool" where
  "qualifying p (BeforeCompaction event now stamp) = (\<not> messageCount_or_0 event < minMessages p)"
| "qualifying p c = False"

subsection \<open>The Text Extractor as the specification words it\<close>

text \<open>
  The specification keeps the elements that are objects tagged as text with a string
  payload, and joins their payloads in order. \<open>text_payload\<close> is the payload of such an
  element, and \<open>kept_payloads\<close> the payloads kept from a sequence.
\<close>

fun text_payload :: "jsval \<Rightarrow> string option" where
  "text_payload (JObj fs) =
     (case (map_of fs ''type'', map_of fs ''text'') of
        (Some (JStr tag), Some (JStr payload)) \<Rightarrow> if tag = ''text'' then Some payload else None
      | _ \<Rightarrow> None)"
| "text_payload v = None"

definition kept_payloads :: "jsval list \<Rightarrow> string list" where
  "kept_payloads blocks = List.map_filter text_payload blocks"

subsection \<open>Concrete inputs\<close>

text \<open>Messages and content blocks as the host sends them.\<close>

definition text_block :: "string \<Rightarrow> jsval" where
  "text_block payload = JObj [(''type'', JStr ''text''), (''text'', JStr payload)]"

definition user_message :: "string \<Rightarrow> jsval" where
  "user_message c = JObj [(''role'', JStr ''user''), (''content'', JStr c)]"

definition assistant_message :: "string \<Rightarrow> jsval" where
  "assistant_message c = JObj [(''role'', JStr ''assistant''), (''content'', JStr c)]"

definition user_block_message :: "string \<Rightarrow> jsval" where
  "user_block_message c = JObj [(''role'', JStr ''user''), (''content'', JArr [text_block c])]"

text \<open>
  Ten messages that open with a task and its acknowledgement, followed by eight that add
  three more passages.
\<close>

definition scenario_fillers :: "jsval list" where
  "scenario_fillers =
     [user_message ''ok'', assistant_message ''Sure.'',
      user_message ''ok'', assistant_message ''Sure.'',
      user_message ''ok'', assistant_message ''Sure.'',
      assistant_message ''Sure.'', assistant_message ''Sure.'']"

definition scenario_messages :: "jsval list" where
  "scenario_messages =
     user_message ''Fix the login bug'' #
     assistant_message ''I'm investigating the login bug now'' # scenario_fillers"

text \<open>
  Two histories of ten messages with one user message, the first. In \<open>crowded_messages\<close>
  five assistant messages that match the task pattern follow it; in \<open>blocks_messages\<close>
  its content is a sequence of one text block. Then the events that carry these
  histories with a message count of 10, or of 5.
\<close>

definition busy_replies :: "jsval list" where
  "busy_replies =
     [assistant_message ''I'm investigating the login bug now'',
      assistant_message ''Fixing the session check'',
      assistant_message ''Implementing the token refresh'',
      assistant_message ''Building the test suite'',
      assistant_message ''Creating a regression test'']"

definition crowded_messages :: "jsval list" where
  "crowded_messages =
     user_message ''Fix the login bug'' # busy_replies @ replicate 4 (assistant_message ''Sure.'')"

definition blocks_messages :: "jsval list" where
  "blocks_messages =
     user_block_message ''Fix the login bug'' #
     assistant_message ''I'm investigating the login bug now'' #
     replicate 8 (assistant_message ''Sure.'')"

definition scenario_event :: compaction_event where
  "scenario_event = \<lparr>messageCount = Some 10, messages = JArr scenario_messages\<rparr>"

definition crowded_event :: compaction_event where
  "crowded_event = \<lparr>messageCount = Some 10, messages = JArr crowded_messages\<rparr>"

definition blocks_event :: compaction_event where
  "blocks_event = \<lparr>messageCount = Some 10, messages = JArr blocks_messages\<rparr>"

definition short_event :: compaction_event where
  "short_event = \<lparr>messageCount = Some 5, messages = JArr scenario_messages\<rparr>"

definition sample_stamp :: string where
  "sample_stamp = ''2026-01-01T00:00:00.000Z''"

definition long_text :: string where
  "long_text = replicate 600 (CHR ''a'')"

text \<open>
  A file system that refuses nothing and holds no file, the path of the snapshot, the
  same file system with a snapshot in place, one that refuses to unlink it, and one
  that refuses every write.
\<close>

definition plain_fs :: filesystem where
  "plain_fs = \<lparr>files = Map.empty, mkdir_denied = (\<lambda>p. False), write_denied = (\<lambda>p. False),
      read_denied = (\<lambda>p. False), unlink_denied = (\<lambda>p. False)\<rparr>"

definition sample_path :: string where
  "sample_path = ''/w/memory/compaction-context.md''"

definition written_fs :: filesystem where
  "written_fs = plain_fs\<lparr>files := [sample_path \<mapsto> ''old snapshot'']\<rparr>"

definition locked_fs :: filesystem where
  "locked_fs = written_fs\<lparr>unlink_denied := (\<lambda>p. True)\<rparr>"

definition readonly_fs :: filesystem where
  "readonly_fs = plain_fs\<lparr>write_denied := (\<lambda>p. True)\<rparr>"

text \<open>The default configuration, one with \<open>recoveryPrompt: false\<close>, and a state that owes a recovery.\<close>

definition default_config :: config where
  "default_config = \<lparr>contextFile = None, recoveryPrompt = None, minMessagesForSnapshot = None\<rparr>"

definition default_plugin :: plugin_instance where
  "default_plugin = register default_config sample_path"

definition silent_plugin :: plugin_instance where
  "silent_plugin = register (default_config\<lparr>recoveryPrompt := Some False\<rparr>) sample_path"

definition pending_state :: guard_state where
  "pending_state = initial_state\<lparr>compactionJustHappened := True, lastCompactionTime := 1000,
                                  compactionCount := 1, needsRecovery := {''s1''}\<rparr>"

text \<open>The snapshots the first compaction writes for the crowded history and for the one with blocks.\<close>

definition crowded_snapshot :: string where
  "crowded_snapshot = snapshot_text sample_stamp
     (''Assistant: I'm investigating the login bug now\<newline>\<newline>'' @
      ''Assistant: Fixing the session check\<newline>\<newline>'' @
      ''Assistant: Implementing the token refresh\<newline>\<newline>'' @
      ''Assistant: Building the test suite\<newline>\<newline>'' @
      ''Assistant: Creating a regression test'') 1"

definition blocks_snapshot :: string where
  "blocks_snapshot = snapshot_text sample_stamp
     ''Assistant: I'm investigating the login bug now'' 1"

section \<open>Properties\<close>

subsection \<open>Text Extractor\<close>

lemma visitBlock_acc: "visitBlock b acc = acc @ visitBlock b []"
  by (simp add: visitBlock_def)

lemma collectTextParts_acc:
  "collectTextParts blocks textParts = textParts @ collectTextParts blocks []"
proof (induction blocks arbitrary: textParts)
  case Nil
  show ?case by simp
next
  case (Cons b bs)
  have "collectTextParts (b # bs) textParts = visitBlock b textParts @ collectTextParts bs []"
    using Cons.IH [of "visitBlock b textParts"] by simp
  also have "\<dots> = textParts @ (visitBlock b [] @ collectTextParts bs [])"
    using visitBlock_acc [of b textParts] by simp
  also have "visitBlock b [] @ collectTextParts bs [] = collectTextParts (b # bs) []"
    using Cons.IH [of "visitBlock b []"] by simp
  finally show ?case .
qed

lemma visitBlock_payload:
  "visitBlock b [] = (case text_payload b of None \<Rightarrow> [] | Some t \<Rightarrow> [t])"
proof (cases b)
  case (JObj fs)
  show ?thesis
  proof (cases "map_of fs ''type''")
    case None
    with JObj show ?thesis by (simp add: visitBlock_def)
  next
    case (Some ty)
    note ty = this
    show ?thesis
    proof (cases "map_of fs ''text''")
      case None
      with JObj ty show ?thesis by (cases ty) (simp_all add: visitBlock_def)
    next
      case (Some tx)
      with JObj ty show ?thesis by (cases ty; cases tx) (simp_all add: visitBlock_def)
    qed
  qed
qed (simp_all add: visitBlock_def)

lemma kept_payloads_Cons:
  "kept_payloads (b # bs) = (case text_payload b of None \<Rightarrow> [] | Some t \<Rightarrow> [t]) @ kept_payloads bs"
  by (simp add: kept_payloads_def split: option.splits)

lemma collectTextParts_kept: "collectTextParts blocks [] = kept_payloads blocks"
proof (induction blocks)
  case Nil
  show ?case by (simp add: kept_payloads_def)
next
  case (Cons b bs)
  have "collectTextParts (b # bs) [] = visitBlock b [] @ collectTextParts bs []"
    using collectTextParts_acc [of bs "visitBlock b []"] by simp
  then show ?case
    by (simp only: Cons.IH visitBlock_payload kept_payloads_Cons)
qed

lemma join_newline_empty:
  "join ''\<newline>'' xs = [] \<longleftrightarrow> xs = [] \<or> xs = [[]]"
proof (cases xs)
  case Nil
  then show ?thesis by simp
next
  case (Cons x ys)
  then show ?thesis by (cases ys) simp_all
qed

lemma kept_payloads_sample:
  "kept_payloads [text_block ''a'', JNull, JStr ''x'', text_block '''', text_block ''b'']
     = [''a'', '''', ''b'']"
  by (simp add: kept_payloads_Cons text_block_def) (simp add: kept_payloads_def)

text \<open>
  Claim C7, as amended. On a sequence, \<open>extractTextContent\<close> keeps exactly the payloads
  of the elements that are objects tagged as text with a string payload, in their order,
  and returns them joined with newlines whenever that joined string is not empty. When
  it is empty, which is when no element is kept or the only kept payload is the empty
  string, it returns absent.
\<close>

theorem extractTextContent_of_sequence:
  "extractTextContent (JArr blocks) =
     (if kept_payloads blocks = [] \<or> kept_payloads blocks = [[]] then None
      else Some (join ''\<newline>'' (kept_payloads blocks)))"
proof -
  have "extractTextContent (JArr blocks) =
          (if join ''\<newline>'' (kept_payloads blocks) = [] then None
           else Some (join ''\<newline>'' (kept_payloads blocks)))"
    by (simp add: extractTextContent_def collectTextParts_kept Let_def)
  then show ?thesis
    by (simp only: join_newline_empty)
qed

theorem extractTextContent_of_sequence_witness:
  "extractTextContent (JArr [text_block ''a'', JNull, JStr ''x'', text_block '''', text_block ''b''])
     = Some ''a\<newline>\<newline>b''"
  using extractTextContent_of_sequence
    [of "[text_block ''a'', JNull, JStr ''x'', text_block '''', text_block ''b'']"]
  by (simp add: kept_payloads_sample)

text \<open>
  A sequence that holds one text block with the empty payload: one payload is kept, the
  joined string is empty, and the result is absent, not the joined string.
\<close>

theorem empty_text_block_counterexample:
  "kept_payloads [text_block ''''] = ['''']
   \<and> extractTextContent (JArr [text_block '''']) = None
   \<and> extractTextContent (JArr [text_block ''''])
       \<noteq> Some (join ''\<newline>'' (kept_payloads [text_block '''']))"
  by (simp add: extractTextContent_def visitBlock_def kept_payloads_def text_block_def)

subsection \<open>Task-Context Summarizer\<close>

lemma visitMessage_acc: "visitMessage msg acc = acc @ visitMessage msg []"
  by (simp add: visitMessage_def Let_def split: option.splits)

lemma collectContextParts_acc:
  "collectContextParts ms acc = acc @ collectContextParts ms []"
proof (induction ms arbitrary: acc)
  case Nil
  show ?case by simp
next
  case (Cons m ms)
  have "collectContextParts (m # ms) acc = visitMessage m acc @ collectContextParts ms []"
    using Cons.IH [of "visitMessage m acc"] by simp
  also have "\<dots> = acc @ (visitMessage m [] @ collectContextParts ms [])"
    using visitMessage_acc [of m acc] by simp
  also have "visitMessage m [] @ collectContextParts ms [] = collectContextParts (m # ms) []"
    using Cons.IH [of "visitMessage m []"] by simp
  finally show ?case .
qed

lemma collectContextParts_Cons:
  "collectContextParts (m # ms) [] = visitMessage m [] @ collectContextParts ms []"
  using collectContextParts_acc [of ms "visitMessage m []"] by simp

lemma collectContextParts_append:
  "collectContextParts (xs @ ys) [] = collectContextParts xs [] @ collectContextParts ys []"
proof (induction xs)
  case Nil
  show ?case by simp
next
  case (Cons x xs)
  have "collectContextParts ((x # xs) @ ys) [] = visitMessage x [] @ collectContextParts (xs @ ys) []"
    using collectContextParts_Cons [of x "xs @ ys"] by simp
  also have "\<dots> = (visitMessage x [] @ collectContextParts xs []) @ collectContextParts ys []"
    using Cons.IH by simp
  finally show ?case by (simp only: collectContextParts_Cons)
qed

lemma role_user_is_object:
  "get_prop msg ''role'' = JStr ''user'' \<Longrightarrow> truthy msg \<and> typeof_object msg"
  by (cases msg) simp_all

lemma visitMessage_user:
  assumes "get_prop msg ''role'' = JStr ''user''"
  shows "visitMessage msg parts =
           (if typeof_string (get_prop msg ''content'')
            then parts @ [''User: '' @ truncate_to 500 (string_of (get_prop msg ''content''))]
            else parts)"
  using assms role_user_is_object [OF assms] by (simp add: visitMessage_def)

lemma visitMessage_JNull: "visitMessage JNull parts = parts"
  by (simp add: visitMessage_def)

lemma collect_slice_replace:
  assumes "visitMessage a [] = visitMessage b []"
  shows "collectContextParts (slice_last n (xs @ a # ys)) [] =
         collectContextParts (slice_last n (xs @ b # ys)) []"
proof (cases "length xs + Suc (length ys) - n \<le> length xs")
  case True
  then have "slice_last n (xs @ a # ys) = drop (length xs + Suc (length ys) - n) xs @ a # ys"
    and "slice_last n (xs @ b # ys) = drop (length xs + Suc (length ys) - n) xs @ b # ys"
    by (simp_all add: slice_last_def)
  then show ?thesis
    using assms by (simp add: collectContextParts_append collectContextParts_Cons)
next
  case False
  then have "slice_last n (xs @ a # ys) = drop (length xs + Suc (length ys) - n - Suc (length xs)) ys"
    and "slice_last n (xs @ b # ys) = drop (length xs + Suc (length ys) - n - Suc (length xs)) ys"
    by (simp_all add: slice_last_def drop_Cons')
  then show ?thesis by simp
qed

text \<open>
  Claim C9. A message of role \<open>user\<close> adds its passage when its content is a plain
  string and adds nothing otherwise. When its content is a sequence of blocks, whatever
  the blocks are, the parts stay as they were and the digest of a history is the one it
  would be with \<open>null\<close> in the place of that message.
\<close>

theorem user_block_content_excluded:
  assumes "get_prop msg ''role'' = JStr ''user''"
  shows "visitMessage msg contextParts =
           (if typeof_string (get_prop msg ''content'')
            then contextParts @
                 [''User: '' @ truncate_to 500 (string_of (get_prop msg ''content''))]
            else contextParts) \<and>
         (get_prop msg ''content'' = JArr blocks \<longrightarrow>
            visitMessage msg contextParts = contextParts \<and>
            extractTaskContext (JArr (earlier @ msg # later)) =
            extractTaskContext (JArr (earlier @ JNull # later)))"
proof -
  have skip: "visitMessage msg parts = parts" if "get_prop msg ''content'' = JArr blocks" for parts
    using visitMessage_user [OF assms, of parts] that by simp
  have "extractTaskContext (JArr (earlier @ msg # later)) =
        extractTaskContext (JArr (earlier @ JNull # later))"
    if "get_prop msg ''content'' = JArr blocks"
  proof -
    have "visitMessage msg [] = visitMessage JNull []"
      using skip [OF that, of "[]"] by (simp add: visitMessage_JNull)
    from collect_slice_replace [OF this, of 20 earlier later]
    show ?thesis by (simp add: extractTaskContext_def Let_def)
  qed
  with skip visitMessage_user [OF assms, of contextParts] show ?thesis by blast
qed

theorem user_block_content_excluded_witness:
  "get_prop (user_block_message ''Fix it'') ''role'' = JStr ''user'' \<and>
   get_prop (user_block_message ''Fix it'') ''content'' = JArr [text_block ''Fix it''] \<and>
   visitMessage (user_block_message ''Fix it'') [''User: hello''] = [''User: hello''] \<and>
   extractTaskContext
     (JArr ([user_message ''hello''] @ user_block_message ''Fix it'' # [assistant_message ''fixing it''])) =
   extractTaskContext
     (JArr ([user_message ''hello''] @ JNull # [assistant_message ''fixing it'']))"
proof -
  have role: "get_prop (user_block_message ''Fix it'') ''role'' = JStr ''user''"
    by (simp add: user_block_message_def)
  have content: "get_prop (user_block_message ''Fix it'') ''content'' = JArr [text_block ''Fix it'']"
    by (simp add: user_block_message_def)
  show ?thesis
    using role content
      user_block_content_excluded [OF role, of "[''User: hello'']" "[text_block ''Fix it'']"
        "[user_message ''hello'']" "[assistant_message ''fixing it'']"]
    by simp
qed

lemma length_truncate_to: "length (truncate_to n s) \<le> n + 3"
  by (simp add: truncate_to_def)

lemma visitMessage_shape:
  "visitMessage m [] = [] \<or>
   (\<exists>c. visitMessage m [] = [''User: '' @ truncate_to 500 c]) \<or>
   (\<exists>t. visitMessage m [] = [''Assistant: '' @ truncate_to 300 t])"
  by (auto simp add: visitMessage_def Let_def split: option.splits)

lemma visitMessage_labelled:
  assumes "p \<in> set (visitMessage m [])"
  shows "(\<exists>t. p = ''User: '' @ t \<and> length t \<le> 503) \<or>
         (\<exists>t. p = ''Assistant: '' @ t \<and> length t \<le> 303)"
proof -
  have u: "length (truncate_to 500 s) \<le> 503" for s
    using length_truncate_to [of 500 s] by simp
  have a: "length (truncate_to 300 s) \<le> 303" for s
    using length_truncate_to [of 300 s] by simp
  from visitMessage_shape [of m] assms
  consider c where "p = ''User: '' @ truncate_to 500 c"
    | t where "p = ''Assistant: '' @ truncate_to 300 t"
    by auto
  then show ?thesis
  proof cases
    case 1
    with u [of c] show ?thesis by blast
  next
    case 2
    with a [of t] show ?thesis by blast
  qed
qed

lemma collectContextParts_labelled:
  "p \<in> set (collectContextParts ms []) \<Longrightarrow>
     (\<exists>t. p = ''User: '' @ t \<and> length t \<le> 503) \<or>
     (\<exists>t. p = ''Assistant: '' @ t \<and> length t \<le> 303)"
proof (induction ms)
  case Nil
  then show ?case by simp
next
  case (Cons m ms)
  from Cons.prems have "p \<in> set (visitMessage m []) \<or> p \<in> set (collectContextParts ms [])"
    by (simp only: collectContextParts_Cons set_append Un_iff)
  then show ?case
    using visitMessage_labelled [of p m] Cons.IH by blast
qed

lemma set_slice_last: "set (slice_last n xs) \<subseteq> set xs"
  by (simp add: slice_last_def set_drop_subset)

lemma long_digest:
  "extractTaskContext (JArr [user_message long_text]) =
     Some (''User: '' @ replicate 500 (CHR ''a'') @ ''...'')"
  by (simp add: extractTaskContext_def slice_last_def visitMessage_def user_message_def
      truncate_to_def long_text_def)

text \<open>
  Claim C3. A digest is the join of the last five parts that the loop collects from the
  last 20 messages, and each of them is the label \<open>User: \<close> followed by a passage of
  at most 503 characters, or the label \<open>Assistant: \<close> followed by a passage of at
  most 303 characters, the ellipsis included.
\<close>

theorem digest_passages_bounded:
  assumes "extractTaskContext history = Some digest"
  shows "\<exists>ms. history = JArr ms \<and>
           digest = join ''\<newline>\<newline>'' (slice_last 5 (collectContextParts (slice_last 20 ms) [])) \<and>
           (\<forall>p \<in> set (slice_last 5 (collectContextParts (slice_last 20 ms) [])).
              (\<exists>t. p = ''User: '' @ t \<and> length t \<le> 503) \<or>
              (\<exists>t. p = ''Assistant: '' @ t \<and> length t \<le> 303))"
proof (cases history)
  case (JArr ms)
  define parts where "parts = collectContextParts (slice_last 20 ms) []"
  from assms JArr have digest: "digest = join ''\<newline>\<newline>'' (slice_last 5 parts)"
    by (auto simp add: extractTaskContext_def Let_def parts_def split: if_splits)
  have "\<forall>p \<in> set (slice_last 5 parts).
      (\<exists>t. p = ''User: '' @ t \<and> length t \<le> 503) \<or>
      (\<exists>t. p = ''Assistant: '' @ t \<and> length t \<le> 303)"
    using set_slice_last [of 5 parts] collectContextParts_labelled [of _ "slice_last 20 ms"]
    unfolding parts_def by blast
  with digest JArr show ?thesis
    unfolding parts_def by blast
qed (use assms in \<open>simp_all add: extractTaskContext_def\<close>)

theorem digest_passages_bounded_witness:
  "extractTaskContext (JArr [user_message long_text]) =
     Some (''User: '' @ replicate 500 (CHR ''a'') @ ''...'') \<and>
   slice_last 5 (collectContextParts (slice_last 20 [user_message long_text]) []) =
     [''User: '' @ replicate 500 (CHR ''a'') @ ''...''] \<and>
   ((\<exists>t. ''User: '' @ replicate 500 (CHR ''a'') @ ''...'' = ''User: '' @ t \<and> length t \<le> 503) \<or>
    (\<exists>t. ''User: '' @ replicate 500 (CHR ''a'') @ ''...'' = ''Assistant: '' @ t \<and> length t \<le> 303))"
proof -
  have parts: "slice_last 5 (collectContextParts (slice_last 20 [user_message long_text]) []) =
     [''User: '' @ replicate 500 (CHR ''a'') @ ''...'']"
    by (simp add: slice_last_def visitMessage_def user_message_def truncate_to_def long_text_def)
  from digest_passages_bounded [OF long_digest]
  have "\<forall>p \<in> set (slice_last 5 (collectContextParts (slice_last 20 [user_message long_text]) [])).
      (\<exists>t. p = ''User: '' @ t \<and> length t \<le> 503) \<or>
      (\<exists>t. p = ''Assistant: '' @ t \<and> length t \<le> 303)"
    by blast
  then have "\<forall>p \<in> set [''User: '' @ replicate 500 (CHR ''a'') @ ''...''].
      (\<exists>t. p = ''User: '' @ t \<and> length t \<le> 503) \<or>
      (\<exists>t. p = ''Assistant: '' @ t \<and> length t \<le> 303)"
    by (simp only: parts)
  then have "(\<exists>t. ''User: '' @ replicate 500 (CHR ''a'') @ ''...'' = ''User: '' @ t \<and> length t \<le> 503) \<or>
    (\<exists>t. ''User: '' @ replicate 500 (CHR ''a'') @ ''...'' = ''Assistant: '' @ t \<and> length t \<le> 303)"
    by (simp only: list.set ball_simps bex_simps insert_iff empty_iff)
  with long_digest parts show ?thesis by blast
qed

subsection \<open>Context Store\<close>

text \<open>
  Claim C8, as amended. \<open>clearContext\<close> resolves, and resolves again with the same file
  system when called a second time; \<open>loadContext\<close> after it returns absent whenever the
  file was absent or the system did not refuse to unlink it.
\<close>

theorem clear_twice_then_load:
  "\<exists>fs1. clearContext fs p = Inr fs1 \<and> clearContext fs1 p = Inr fs1 \<and>
         (files fs p = None \<or> \<not> unlink_denied fs p \<longrightarrow> loadContext fs1 p = Inr None)"
  by (cases "files fs p")
     (simp_all add: clearContext_def fs_unlink_def loadContext_def fs_readFile_def)

theorem clear_twice_then_load_witness:
  "\<not> unlink_denied written_fs sample_path \<and>
   (\<exists>fs1. clearContext written_fs sample_path = Inr fs1 \<and> clearContext fs1 sample_path = Inr fs1 \<and>
          loadContext fs1 sample_path = Inr None)"
  using clear_twice_then_load [of written_fs sample_path]
  by (simp add: written_fs_def plain_fs_def)

text \<open>
  A file system that holds the snapshot and refuses to unlink it: \<open>clearContext\<close> drops
  the error and leaves the file, and \<open>loadContext\<close> returns its content.
\<close>

theorem load_after_refused_clear_counterexample:
  "clearContext locked_fs sample_path = Inr locked_fs \<and>
   loadContext locked_fs sample_path = Inr (Some ''old snapshot'')"
  by (simp add: clearContext_def fs_unlink_def loadContext_def fs_readFile_def
      locked_fs_def written_fs_def plain_fs_def)

subsection \<open>Lifecycle hooks\<close>

text \<open>
  Claim C4. A \<open>before_compaction\<close> whose message count is below the configured minimum,
  10 when \<open>minMessagesForSnapshot\<close> is not set, returns the recovery state, its counter
  and pending set included, and the file system as they were.
\<close>

theorem short_history_is_skipped:
  "messageCount_or_0 event < (case minMessagesForSnapshot cfg of None \<Rightarrow> 10 | Some m \<Rightarrow> m) \<Longrightarrow>
   before_compaction (register cfg path) event now stamp (st, fs) = (st, fs)"
  by (simp add: before_compaction_def register_def)

theorem short_history_is_skipped_witness:
  "messageCount_or_0 short_event
     < (case minMessagesForSnapshot default_config of None \<Rightarrow> 10 | Some m \<Rightarrow> m) \<and>
   before_compaction (register default_config sample_path) short_event 1000 sample_stamp
     (pending_state, written_fs) = (pending_state, written_fs)"
proof -
  have small: "messageCount_or_0 short_event
     < (case minMessagesForSnapshot default_config of None \<Rightarrow> 10 | Some m \<Rightarrow> m)"
    by (simp add: messageCount_or_0_def default_config_def short_event_def)
  from short_history_is_skipped [OF small] small show ?thesis by simp
qed

text \<open>
  Claim C10. An event without \<open>messageCount\<close> counts as 0 messages: when the configured
  minimum is positive, \<open>before_compaction\<close> changes neither the state nor the files,
  whatever the \<open>messages\<close> array holds.
\<close>

theorem missing_messageCount_is_zero:
  "messageCount event = None \<Longrightarrow> 0 < minMessages p \<Longrightarrow>
   messageCount_or_0 event = 0 \<and> before_compaction p event now stamp (st, fs) = (st, fs)"
  by (simp add: before_compaction_def messageCount_or_0_def)

theorem missing_messageCount_is_zero_witness:
  "length scenario_messages = 10 \<and> 0 < minMessages default_plugin \<and>
   before_compaction default_plugin \<lparr>messageCount = None, messages = JArr scenario_messages\<rparr>
     1000 sample_stamp (pending_state, written_fs) = (pending_state, written_fs)"
proof -
  have positive: "0 < minMessages default_plugin"
    by (simp add: default_plugin_def register_def default_config_def)
  have absent: "messageCount \<lparr>messageCount = None, messages = JArr scenario_messages\<rparr> = None"
    by simp
  from missing_messageCount_is_zero [OF absent positive] positive
  show ?thesis by (simp add: scenario_messages_def scenario_fillers_def)
qed

text \<open>
  Claim C1. With \<open>recoveryPrompt\<close> enabled, the \<open>before_agent_start\<close> of a session
  that follows its \<open>after_compaction\<close> returns content that starts with the recovery
  prompt, and the next \<open>before_agent_start\<close> of that session returns nothing. The
  session key is the one of the event, or \<open>default\<close> when the event has none.
\<close>

theorem recovery_injected_once:
  assumes inject: "injectRecovery p"
    and k1: "sessionKey_or_default k1 = S"
    and k2: "sessionKey_or_default k2 = S"
    and k3: "sessionKey_or_default k3 = S"
  shows "let st1 = after_compaction k1 st;
             first = before_agent_start p k2 now2 fs2 st1;
             second = before_agent_start p k3 now3 fs3 (fst first)
         in (\<exists>c. snd first = Inr (Some c) \<and> prefix RECOVERY_PROMPT (prependContext c)) \<and>
            snd second = Inr None"
proof -
  define st1 where "st1 = after_compaction k1 st"
  define first where "first = before_agent_start p k2 now2 fs2 st1"
  have pending: "S \<in> needsRecovery st1"
    using k1 by (simp add: st1_def after_compaction_def)
  have r2: "\<exists>c. snd first = Inr (Some c) \<and> prefix RECOVERY_PROMPT (prependContext c)"
    using inject k2 pending
    by (auto simp add: first_def before_agent_start_def loadContext_def Let_def
        split: sum.splits option.splits)
  have st2: "S \<notin> needsRecovery (fst first) \<and> \<not> compactionJustHappened (fst first)"
    using inject k2 pending
    by (auto simp add: first_def before_agent_start_def loadContext_def Let_def
        split: sum.splits option.splits)
  have "snd (before_agent_start p k3 now3 fs3 (fst first)) = Inr None"
    using k3 st2 by (simp add: before_agent_start_def)
  with r2 show ?thesis
    unfolding Let_def st1_def [symmetric] first_def [symmetric] by simp
qed

theorem recovery_injected_once_witness:
  "injectRecovery default_plugin \<and>
   (\<exists>c. snd (before_agent_start default_plugin (Some ''s1'') 2000 plain_fs
              (after_compaction (Some ''s1'') initial_state)) = Inr (Some c) \<and>
        prefix RECOVERY_PROMPT (prependContext c)) \<and>
   snd (before_agent_start default_plugin (Some ''s1'') 3000 plain_fs
          (fst (before_agent_start default_plugin (Some ''s1'') 2000 plain_fs
                  (after_compaction (Some ''s1'') initial_state)))) = Inr None"
proof -
  have inject: "injectRecovery default_plugin"
    by (simp add: default_plugin_def register_def default_config_def)
  have key: "sessionKey_or_default (Some ''s1'') = ''s1''"
    by (simp add: sessionKey_or_default_def)
  from recovery_injected_once [OF inject key key key, of initial_state 2000 plain_fs 3000 plain_fs]
  show ?thesis using inject by (simp add: Let_def)
qed

text \<open>
  Claim C6. With \<open>recoveryPrompt\<close> disabled, a \<open>before_agent_start\<close> that proceeds,
  because the session is pending or because the compaction flag is set and at most 60
  seconds old, removes the session from the pending set, clears the flag and returns
  nothing.
\<close>

theorem consumed_without_injection:
  assumes "\<not> injectRecovery p"
    and "sessionKey_or_default key \<in> needsRecovery st \<or>
         (now - lastCompactionTime st \<le> 60000 \<and> compactionJustHappened st)"
  shows "before_agent_start p key now fs st =
           (st\<lparr>needsRecovery := needsRecovery st - {sessionKey_or_default key},
               compactionJustHappened := False\<rparr>, Inr None)"
  using assms by (auto simp add: before_agent_start_def Let_def)

theorem consumed_without_injection_witness:
  "\<not> injectRecovery silent_plugin \<and>
   sessionKey_or_default (Some ''s1'') \<in> needsRecovery pending_state \<and>
   before_agent_start silent_plugin (Some ''s1'') 2000 plain_fs pending_state =
     (pending_state\<lparr>needsRecovery := {}, compactionJustHappened := False\<rparr>, Inr None) \<and>
   sessionKey_or_default None \<notin> needsRecovery pending_state \<and>
   before_agent_start silent_plugin None 2000 plain_fs pending_state =
     (pending_state\<lparr>compactionJustHappened := False\<rparr>, Inr None)"
proof -
  have silent: "\<not> injectRecovery silent_plugin"
    by (simp add: silent_plugin_def register_def)
  have pending: "sessionKey_or_default (Some ''s1'') \<in> needsRecovery pending_state"
    by (simp add: sessionKey_or_default_def pending_state_def)
  have fresh: "2000 - lastCompactionTime pending_state \<le> 60000 \<and>
               compactionJustHappened pending_state"
    by (simp add: pending_state_def)
  from consumed_without_injection [OF silent disjI1 [OF pending], of 2000 plain_fs]
    consumed_without_injection [OF silent disjI2 [OF fresh], of None plain_fs]
  show ?thesis using silent pending
    by (simp add: sessionKey_or_default_def pending_state_def)
qed

subsection \<open>Sequences of hook calls\<close>

lemma default_plugin_fields:
  "contextPath default_plugin = sample_path" "minMessages default_plugin = 10"
  "injectRecovery default_plugin"
  by (simp_all add: default_plugin_def register_def default_config_def)

lemma scenario_event_qualifies:
  "qualifying default_plugin (BeforeCompaction scenario_event 1000 sample_stamp)"
  by (simp add: scenario_event_def messageCount_or_0_def default_plugin_def register_def
      default_config_def)

lemma run_append: "run p (xs @ ys) sf = run p ys (run p xs sf)"
  by (induction xs arbitrary: sf) simp_all

lemma before_compaction_skip:
  "messageCount_or_0 event < minMessages p \<Longrightarrow> before_compaction p event now stamp sf = sf"
  by (simp add: before_compaction_def)

lemma before_compaction_counters:
  assumes "\<not> messageCount_or_0 event < minMessages p"
  shows "compactionCount (fst (before_compaction p event now stamp sf)) = compactionCount (fst sf) + 1"
    and "lastCompactionTime (fst (before_compaction p event now stamp sf)) = now"
    and "compactionJustHappened (fst (before_compaction p event now stamp sf))"
    and "needsRecovery (fst (before_compaction p event now stamp sf)) = needsRecovery (fst sf)"
  using assms
  by (simp_all add: before_compaction_def Let_def split: jsval.splits option.splits sum.splits)

lemma before_agent_start_keeps:
  "lastCompactionTime (fst (before_agent_start p key now fs st)) = lastCompactionTime st"
  "compactionCount (fst (before_agent_start p key now fs st)) = compactionCount st"
  by (simp_all add: before_agent_start_def Let_def split: sum.splits option.splits)

lemma dispatch_not_qualifying:
  assumes "\<not> qualifying p c"
  shows "lastCompactionTime (fst (dispatch p c sf)) = lastCompactionTime (fst sf)"
    and "compactionCount (fst (dispatch p c sf)) = compactionCount (fst sf)"
  using assms
  by (cases c; simp add: before_compaction_skip before_agent_start_keeps after_compaction_def)+

lemma dispatch_qualifying:
  assumes "qualifying p c"
  shows "compactionCount (fst (dispatch p c sf)) = compactionCount (fst sf) + 1"
  using assms by (cases c) (simp_all add: before_compaction_counters)

lemma run_keeps_lastCompactionTime:
  "\<forall>c \<in> set cs. \<not> qualifying p c \<Longrightarrow>
   lastCompactionTime (fst (run p cs sf)) = lastCompactionTime (fst sf)"
  by (induction cs arbitrary: sf) (simp_all add: dispatch_not_qualifying)

lemma run_compactionCount:
  "compactionCount (fst (run p cs sf)) = compactionCount (fst sf) + length (filter (qualifying p) cs)"
  by (induction cs arbitrary: sf) (simp_all add: dispatch_not_qualifying dispatch_qualifying)

text \<open>
  Claim C5. After a run of hook calls, \<open>lastCompactionTime\<close> is the time of the last
  qualifying compaction. A \<open>before_agent_start\<close> more than 60 seconds after it, for a
  session key that is not in the pending set, returns nothing and leaves the state as it
  was.
\<close>

theorem stale_fallback_returns_nothing:
  assumes gate: "qualifying p (BeforeCompaction event t stamp)"
    and later: "\<forall>c \<in> set later. \<not> qualifying p c"
    and st: "st = fst (run p (earlier @ BeforeCompaction event t stamp # later) sf0)"
    and unseen: "sessionKey_or_default key \<notin> needsRecovery st"
    and stale: "now - t > 60000"
  shows "lastCompactionTime st = t \<and> before_agent_start p key now fs st = (st, Inr None)"
proof -
  have "st = fst (run p later (before_compaction p event t stamp (run p earlier sf0)))"
    using st by (simp add: run_append)
  then have "lastCompactionTime st =
             lastCompactionTime (fst (before_compaction p event t stamp (run p earlier sf0)))"
    using run_keeps_lastCompactionTime [OF later] by simp
  also have "\<dots> = t"
    using gate by (simp add: before_compaction_counters)
  finally have last: "lastCompactionTime st = t" .
  with unseen stale show ?thesis
    by (simp add: before_agent_start_def)
qed

theorem stale_fallback_returns_nothing_witness:
  "qualifying default_plugin (BeforeCompaction scenario_event 1000 sample_stamp) \<and>
   sessionKey_or_default None \<notin> needsRecovery (fst (run default_plugin
       [BeforeCompaction scenario_event 1000 sample_stamp, AfterCompaction (Some ''s1'')]
       (initial_state, plain_fs))) \<and>
   (61001::int) - 1000 > 60000 \<and>
   before_agent_start default_plugin None 61001 plain_fs
     (fst (run default_plugin
       [BeforeCompaction scenario_event 1000 sample_stamp, AfterCompaction (Some ''s1'')]
       (initial_state, plain_fs))) =
   (fst (run default_plugin
       [BeforeCompaction scenario_event 1000 sample_stamp, AfterCompaction (Some ''s1'')]
       (initial_state, plain_fs)), Inr None)"
proof -
  define st where "st = fst (run default_plugin
       ([] @ BeforeCompaction scenario_event 1000 sample_stamp # [AfterCompaction (Some ''s1'')])
       (initial_state, plain_fs))"
  have later: "\<forall>c \<in> set [AfterCompaction (Some ''s1'')]. \<not> qualifying default_plugin c"
    by simp
  have gate: "\<not> messageCount_or_0 scenario_event < minMessages default_plugin"
    using scenario_event_qualifies by simp
  have "needsRecovery st = {''s1''}"
    using before_compaction_counters(4) [OF gate, of 1000 sample_stamp "(initial_state, plain_fs)"]
    by (simp add: st_def after_compaction_def sessionKey_or_default_def initial_state_def)
  then have unseen: "sessionKey_or_default None \<notin> needsRecovery st"
    by (simp add: sessionKey_or_default_def)
  have stale: "(61001::int) - 1000 > 60000" by simp
  from stale_fallback_returns_nothing [OF scenario_event_qualifies later st_def unseen stale, of plain_fs]
    scenario_event_qualifies unseen
  show ?thesis unfolding st_def by simp
qed

subsection \<open>What the snapshot holds\<close>

lemma kept_by_slice_last:
  "length ys < n \<Longrightarrow> q \<in> set (slice_last n (xs @ q # ys))"
  by (simp add: slice_last_def)

lemma slice_last_keeps_recent:
  assumes "length ys < n"
  shows "slice_last n (xs @ m # ys) = slice_last (n - Suc (length ys)) xs @ m # ys"
  using assms by (simp add: slice_last_def)

lemma passage_in_digest_parts:
  assumes recent: "length later < 20"
    and few: "length (collectContextParts later []) < 5"
    and part: "visitMessage m [] = [q]"
  shows "q \<in> set (slice_last 5 (collectContextParts (slice_last 20 (earlier @ m # later)) []))"
proof -
  have "collectContextParts (slice_last 20 (earlier @ m # later)) [] =
        collectContextParts (slice_last (20 - Suc (length later)) earlier) [] @
        q # collectContextParts later []"
    using part
    by (simp only: slice_last_keeps_recent [OF recent] collectContextParts_append
        collectContextParts_Cons append_Cons append_Nil)
  then show ?thesis
    using kept_by_slice_last [OF few] by simp
qed

lemma mem_join_sublist: "x \<in> set xs \<Longrightarrow> sublist x (join sep xs)"
proof (induction sep xs rule: join.induct)
  case (1 sep)
  then show ?case by simp
next
  case (2 sep y)
  then show ?case by simp
next
  case (3 sep y z zs)
  show ?case
  proof (cases "x = y")
    case True
    then show ?thesis by simp
  next
    case False
    with 3 have "sublist x (join sep (z # zs))" by simp
    then have "sublist x ((y @ sep) @ join sep (z # zs))"
      by (metis sublist_append)
    then show ?thesis by simp
  qed
qed

lemma task_indicator_test_nonempty: "task_indicator_test t \<Longrightarrow> t \<noteq> []"
  by (auto simp add: task_indicator_test_def task_alternatives_def)

lemma visitMessage_assistant:
  assumes role: "get_prop msg ''role'' = JStr ''assistant''"
    and extracted: "extractTextContent (get_prop msg ''content'') = Some t"
    and matches: "task_indicator_test t"
  shows "visitMessage msg parts = parts @ [''Assistant: '' @ truncate_to 300 t]"
proof -
  have "truthy msg \<and> typeof_object msg"
    using role by (cases msg) simp_all
  then show ?thesis
    using role extracted matches task_indicator_test_nonempty [OF matches]
    by (simp add: visitMessage_def)
qed

lemma snapshot_text_context:
  "sublist context (snapshot_text stamp context n)"
proof -
  have "snapshot_text stamp context n =
     (''# Compaction Recovery Context\<newline>\<newline>*Auto-saved at: '' @ stamp @
      ''*\<newline>*Compaction #'' @ show_nat n @
      ''*\<newline>\<newline>## Recent Activity\<newline>\<newline>'') @ context @
     (''\<newline>\<newline>---\<newline>\<newline>'' @
      ''**Note:** This context was automatically saved before memory compaction.\<newline>'' @
      ''If you're reading this, compaction just ran. Review the above to understand\<newline>'' @
      ''what was happening before context was compressed.\<newline>'')"
    by (simp add: snapshot_text_def)
  then show ?thesis
    by (simp only: sublist_appendI)
qed

lemma snapshot_text_counter:
  "sublist (''*Compaction #'' @ show_nat n @ ''*'') (snapshot_text stamp context n)"
proof -
  have "snapshot_text stamp context n =
     (''# Compaction Recovery Context\<newline>\<newline>*Auto-saved at: '' @ stamp @ ''*\<newline>'') @
     (''*Compaction #'' @ show_nat n @ ''*'') @
     (''\<newline>\<newline>## Recent Activity\<newline>\<newline>'' @ context @
      ''\<newline>\<newline>---\<newline>\<newline>'' @
      ''**Note:** This context was automatically saved before memory compaction.\<newline>'' @
      ''If you're reading this, compaction just ran. Review the above to understand\<newline>'' @
      ''what was happening before context was compressed.\<newline>'')"
    by (simp add: snapshot_text_def)
  then show ?thesis
    by (simp only: sublist_appendI)
qed

lemma before_compaction_saves:
  assumes gate: "\<not> messageCount_or_0 event < minMessages p"
    and history: "messages event = JArr ms"
    and digest: "extractTaskContext (JArr ms) = Some context" "context \<noteq> []"
    and fs_ok: "\<not> mkdir_denied fs (contextPath p)" "\<not> write_denied fs (contextPath p)"
  shows "before_compaction p event now stamp (st, fs) =
           (st\<lparr>compactionCount := compactionCount st + 1, compactionJustHappened := True,
               lastCompactionTime := now, savedContext := Some context\<rparr>,
            fs\<lparr>files := (files fs)(contextPath p \<mapsto>
               snapshot_text stamp context (compactionCount st + 1))\<rparr>)"
proof -
  have "ms \<noteq> []"
    using digest(1) by (auto simp add: extractTaskContext_def)
  then show ?thesis
    using assms
    by (simp add: before_compaction_def Let_def saveContext_def fs_mkdir_parent_def
        fs_writeFile_def)
qed

lemma before_compaction_refused_write:
  "write_denied fs (contextPath p) \<Longrightarrow> snd (before_compaction p event now stamp (st, fs)) = fs"
  by (simp add: before_compaction_def Let_def saveContext_def fs_mkdir_parent_def fs_writeFile_def
      split: jsval.splits option.splits)

lemma task_indicator_investigating:
  "task_indicator_test ''I'm investigating the login bug now''"
  by (simp add: task_indicator_test_def task_alternatives_def lower_ascii_def sublist_code)

lemma task_indicator_sure: "\<not> task_indicator_test ''Sure.''"
  by (simp add: task_indicator_test_def task_alternatives_def lower_ascii_def sublist_code)

lemma visit_samples:
  "visitMessage (user_message c) parts = parts @ [''User: '' @ truncate_to 500 c]"
  "visitMessage (assistant_message ''Sure.'') parts = parts"
  "visitMessage (assistant_message ''I'm investigating the login bug now'') parts =
     parts @ [''Assistant: I'm investigating the login bug now'']"
  by (simp_all add: visitMessage_def user_message_def assistant_message_def
      extractTextContent_def task_indicator_investigating task_indicator_sure truncate_to_def)

lemma scenario_later_parts:
  "collectContextParts scenario_fillers [] = [''User: ok'', ''User: ok'', ''User: ok'']"
  by (simp add: scenario_fillers_def visit_samples truncate_to_def)

lemma busy_parts:
  "collectContextParts busy_replies [] =
     [''Assistant: I'm investigating the login bug now'',
      ''Assistant: Fixing the session check'',
      ''Assistant: Implementing the token refresh'',
      ''Assistant: Building the test suite'',
      ''Assistant: Creating a regression test'']"
  by (simp add: busy_replies_def visitMessage_def assistant_message_def extractTextContent_def
      task_indicator_test_def task_alternatives_def lower_ascii_def sublist_code truncate_to_def)

lemma sure_parts: "collectContextParts (replicate n (assistant_message ''Sure.'')) [] = []"
  by (induction n) (simp_all add: visit_samples)

lemma crowded_digest:
  "extractTaskContext (JArr crowded_messages) =
     Some (''Assistant: I'm investigating the login bug now\<newline>\<newline>'' @
      ''Assistant: Fixing the session check\<newline>\<newline>'' @
      ''Assistant: Implementing the token refresh\<newline>\<newline>'' @
      ''Assistant: Building the test suite\<newline>\<newline>'' @
      ''Assistant: Creating a regression test'')"
proof -
  have "slice_last 20 crowded_messages = crowded_messages"
    by (simp add: slice_last_def crowded_messages_def busy_replies_def)
  moreover have "collectContextParts crowded_messages [] =
      ''User: Fix the login bug'' # collectContextParts busy_replies []"
    unfolding crowded_messages_def
    by (simp only: collectContextParts_Cons collectContextParts_append sure_parts visit_samples)
       (simp add: truncate_to_def)
  ultimately show ?thesis
    by (simp add: extractTaskContext_def crowded_messages_def busy_parts slice_last_def
        del: collectContextParts.simps)
qed

lemma blocks_digest:
  "extractTaskContext (JArr blocks_messages) =
     Some ''Assistant: I'm investigating the login bug now''"
proof -
  have skip: "visitMessage (user_block_message ''Fix the login bug'') [] = []"
    by (simp add: visitMessage_def user_block_message_def)
  have "slice_last 20 blocks_messages = blocks_messages"
    by (simp add: slice_last_def blocks_messages_def)
  moreover have "collectContextParts blocks_messages [] =
      [''Assistant: I'm investigating the login bug now'']"
    unfolding blocks_messages_def
    by (simp only: collectContextParts_Cons sure_parts visit_samples skip) simp
  ultimately show ?thesis
    by (simp add: extractTaskContext_def blocks_messages_def slice_last_def
        del: collectContextParts.simps)
qed

text \<open>
  Claim C2, as amended. Take a run of hook calls from the initial state, then a qualifying
  \<open>before_compaction\<close> on a history that holds, within its last 20 entries, a user
  message with plain-string content and an assistant message whose extracted text
  matches the task pattern, each followed by messages that produce fewer than five
  passages. When the file system refuses neither the directory, the write nor the read,
  \<open>loadContext\<close> returns a snapshot that contains both passages, each truncated as the
  summarizer does, and the line of the counter, whose value is the number of qualifying
  compactions of the run, this one included.
\<close>

theorem snapshot_holds_recent_passages:
  assumes trace: "run p calls (initial_state, fs0) = (st, fs)"
    and gate: "qualifying p (BeforeCompaction event now stamp)"
    and history: "messages event = JArr ms"
    and u_place: "ms = earlier_u @ u # later_u" "length later_u < 20"
      "length (collectContextParts later_u []) < 5"
    and u_role: "get_prop u ''role'' = JStr ''user''"
    and u_content: "get_prop u ''content'' = JStr c"
    and a_place: "ms = earlier_a @ a # later_a" "length later_a < 20"
      "length (collectContextParts later_a []) < 5"
    and a_role: "get_prop a ''role'' = JStr ''assistant''"
    and a_text: "extractTextContent (get_prop a ''content'') = Some t"
    and a_match: "task_indicator_test t"
    and fs_ok: "\<not> mkdir_denied fs (contextPath p)" "\<not> write_denied fs (contextPath p)"
      "\<not> read_denied fs (contextPath p)"
  shows "let n = length (filter (qualifying p) (calls @ [BeforeCompaction event now stamp]));
             result = before_compaction p event now stamp (st, fs)
         in compactionCount (fst result) = n \<and>
            (\<exists>snapshot. loadContext (snd result) (contextPath p) = Inr (Some snapshot) \<and>
               sublist (''User: '' @ truncate_to 500 c) snapshot \<and>
               sublist (''Assistant: '' @ truncate_to 300 t) snapshot \<and>
               sublist (''*Compaction #'' @ show_nat n @ ''*'') snapshot)"
proof -
  define parts where "parts = slice_last 5 (collectContextParts (slice_last 20 ms) [])"
  define body where "body = join ''\<newline>\<newline>'' parts"
  define n where "n = length (filter (qualifying p) (calls @ [BeforeCompaction event now stamp]))"
  have count: "compactionCount st = length (filter (qualifying p) calls)"
    using run_compactionCount [of p calls "(initial_state, fs0)"] trace
    by (simp add: initial_state_def)
  have n: "n = compactionCount st + 1"
    using gate count by (simp add: n_def)
  have u_part: "visitMessage u [] = [''User: '' @ truncate_to 500 c]"
    using visitMessage_user [OF u_role, of "[]"] u_content by simp
  have a_part: "visitMessage a [] = [''Assistant: '' @ truncate_to 300 t]"
    using visitMessage_assistant [OF a_role a_text a_match, of "[]"] by simp
  have u_in: "''User: '' @ truncate_to 500 c \<in> set parts"
    unfolding parts_def u_place(1) by (rule passage_in_digest_parts [OF u_place(2,3) u_part])
  have a_in: "''Assistant: '' @ truncate_to 300 t \<in> set parts"
    unfolding parts_def a_place(1) by (rule passage_in_digest_parts [OF a_place(2,3) a_part])
  have u_sub: "sublist (''User: '' @ truncate_to 500 c) body"
    unfolding body_def by (rule mem_join_sublist [OF u_in])
  have a_sub: "sublist (''Assistant: '' @ truncate_to 300 t) body"
    unfolding body_def by (rule mem_join_sublist [OF a_in])
  have nonempty: "body \<noteq> []"
    using u_sub by auto
  have "collectContextParts (slice_last 20 ms) [] \<noteq> []"
    using u_in set_slice_last [of 5 "collectContextParts (slice_last 20 ms) []"]
    unfolding parts_def by auto
  moreover have "ms \<noteq> []"
    using u_place(1) by simp
  ultimately have digest: "extractTaskContext (JArr ms) = Some body"
    by (simp add: extractTaskContext_def Let_def body_def parts_def)
  have gate': "\<not> messageCount_or_0 event < minMessages p"
    using gate by simp
  define snapshot where "snapshot = snapshot_text stamp body n"
  have saved: "before_compaction p event now stamp (st, fs) =
           (st\<lparr>compactionCount := n, compactionJustHappened := True,
               lastCompactionTime := now, savedContext := Some body\<rparr>,
            fs\<lparr>files := (files fs)(contextPath p \<mapsto> snapshot)\<rparr>)"
    unfolding snapshot_def n
    by (rule before_compaction_saves [OF gate' history digest nonempty fs_ok(1,2)])
  have loaded: "loadContext (snd (before_compaction p event now stamp (st, fs))) (contextPath p) =
                  Inr (Some snapshot)"
    using fs_ok(3) by (simp add: saved loadContext_def fs_readFile_def)
  have inside: "sublist body snapshot"
    unfolding snapshot_def by (rule snapshot_text_context)
  have "sublist (''User: '' @ truncate_to 500 c) snapshot"
    by (rule sublist_order.order.trans [OF u_sub inside])
  moreover have "sublist (''Assistant: '' @ truncate_to 300 t) snapshot"
    by (rule sublist_order.order.trans [OF a_sub inside])
  moreover have "sublist (''*Compaction #'' @ show_nat n @ ''*'') snapshot"
    unfolding snapshot_def by (rule snapshot_text_counter)
  moreover have "compactionCount (fst (before_compaction p event now stamp (st, fs))) = n"
    by (simp add: saved)
  ultimately show ?thesis
    unfolding Let_def n_def [symmetric] using loaded by blast
qed

theorem snapshot_holds_recent_passages_witness:
  "qualifying default_plugin (BeforeCompaction scenario_event 1000 sample_stamp) \<and>
   run default_plugin [BeforeCompaction short_event 500 sample_stamp, AfterCompaction (Some ''s1'')]
     (initial_state, plain_fs) = (initial_state\<lparr>needsRecovery := {''s1''}\<rparr>, plain_fs) \<and>
   compactionCount (fst (before_compaction default_plugin scenario_event 1000 sample_stamp
     (initial_state\<lparr>needsRecovery := {''s1''}\<rparr>, plain_fs))) = 1 \<and>
   (\<exists>snapshot.
      loadContext (snd (before_compaction default_plugin scenario_event 1000 sample_stamp
        (initial_state\<lparr>needsRecovery := {''s1''}\<rparr>, plain_fs))) sample_path = Inr (Some snapshot) \<and>
      sublist ''User: Fix the login bug'' snapshot \<and>
      sublist ''Assistant: I'm investigating the login bug now'' snapshot \<and>
      sublist ''*Compaction #1*'' snapshot)"
proof -
  let ?u = "user_message ''Fix the login bug''"
  let ?a = "assistant_message ''I'm investigating the login bug now''"
  have short: "messageCount_or_0 short_event < minMessages default_plugin"
    by (simp add: short_event_def messageCount_or_0_def default_plugin_def register_def
        default_config_def)
  have trace: "run default_plugin
      [BeforeCompaction short_event 500 sample_stamp, AfterCompaction (Some ''s1'')]
      (initial_state, plain_fs) = (initial_state\<lparr>needsRecovery := {''s1''}\<rparr>, plain_fs)"
    by (simp add: before_compaction_skip [OF short] after_compaction_def
        sessionKey_or_default_def initial_state_def)
  have history: "messages scenario_event = JArr scenario_messages"
    by (simp add: scenario_event_def)
  have u_place: "scenario_messages = [] @ ?u # (?a # scenario_fillers)"
    by (simp add: scenario_messages_def)
  have u_recent: "length (?a # scenario_fillers) < 20"
    by (simp add: scenario_fillers_def)
  have u_few: "length (collectContextParts (?a # scenario_fillers) []) < 5"
    using collectContextParts_Cons [of ?a scenario_fillers]
    by (simp only: scenario_later_parts visit_samples) simp
  have u_role: "get_prop ?u ''role'' = JStr ''user''"
    by (simp add: user_message_def)
  have u_content: "get_prop ?u ''content'' = JStr ''Fix the login bug''"
    by (simp add: user_message_def)
  have a_place: "scenario_messages = [?u] @ ?a # scenario_fillers"
    by (simp add: scenario_messages_def)
  have a_recent: "length scenario_fillers < 20"
    by (simp add: scenario_fillers_def)
  have a_few: "length (collectContextParts scenario_fillers []) < 5"
    by (simp add: scenario_later_parts)
  have a_role: "get_prop ?a ''role'' = JStr ''assistant''"
    by (simp add: assistant_message_def)
  have a_text: "extractTextContent (get_prop ?a ''content'') =
                  Some ''I'm investigating the login bug now''"
    by (simp add: assistant_message_def extractTextContent_def)
  have fs_ok: "\<not> mkdir_denied plain_fs (contextPath default_plugin)"
    "\<not> write_denied plain_fs (contextPath default_plugin)"
    "\<not> read_denied plain_fs (contextPath default_plugin)"
    by (simp_all add: plain_fs_def)
  have path: "contextPath default_plugin = sample_path"
    by (simp add: default_plugin_def register_def)
  have one: "show_nat 1 = ''1''"
    by (simp add: show_nat.simps)
  have n: "length (filter (qualifying default_plugin)
      ([BeforeCompaction short_event 500 sample_stamp, AfterCompaction (Some ''s1'')] @
       [BeforeCompaction scenario_event 1000 sample_stamp])) = 1"
    using short scenario_event_qualifies by simp
  note main = snapshot_holds_recent_passages [OF trace scenario_event_qualifies history
      u_place u_recent u_few u_role u_content a_place a_recent a_few a_role a_text
      task_indicator_investigating fs_ok, unfolded Let_def n path one]
  show ?thesis
    using main scenario_event_qualifies trace
    by (simp add: truncate_to_def del: run.simps qualifying.simps)
qed

text \<open>
  Three qualifying compactions from the initial state. In the crowded history the five
  assistant passages fill the digest and the passage of the only user message is
  dropped. In the history with blocks the only user message is not a plain string and
  adds no passage. On the file system that refuses writes the save fails and
  \<open>loadContext\<close> finds no file.
\<close>

theorem snapshot_misses_passage_counterexample:
  "qualifying default_plugin (BeforeCompaction crowded_event 1000 sample_stamp) \<and>
   loadContext (snd (before_compaction default_plugin crowded_event 1000 sample_stamp
       (initial_state, plain_fs))) sample_path = Inr (Some crowded_snapshot) \<and>
   \<not> sublist ''User: '' crowded_snapshot \<and>
   qualifying default_plugin (BeforeCompaction blocks_event 1000 sample_stamp) \<and>
   loadContext (snd (before_compaction default_plugin blocks_event 1000 sample_stamp
       (initial_state, plain_fs))) sample_path = Inr (Some blocks_snapshot) \<and>
   \<not> sublist ''User: '' blocks_snapshot \<and>
   qualifying default_plugin (BeforeCompaction scenario_event 1000 sample_stamp) \<and>
   loadContext (snd (before_compaction default_plugin scenario_event 1000 sample_stamp
       (initial_state, readonly_fs))) sample_path = Inr None"
proof -
  have crowded_gate: "\<not> messageCount_or_0 crowded_event < minMessages default_plugin"
    by (simp add: crowded_event_def messageCount_or_0_def default_plugin_fields)
  have blocks_gate: "\<not> messageCount_or_0 blocks_event < minMessages default_plugin"
    by (simp add: blocks_event_def messageCount_or_0_def default_plugin_fields)
  have plain: "\<not> mkdir_denied plain_fs (contextPath default_plugin)"
    "\<not> write_denied plain_fs (contextPath default_plugin)"
    by (simp_all add: plain_fs_def)
  have crowded_history: "messages crowded_event = JArr crowded_messages"
    by (simp add: crowded_event_def)
  have blocks_history: "messages blocks_event = JArr blocks_messages"
    by (simp add: blocks_event_def)
  note crowded_saved =
    before_compaction_saves [OF crowded_gate crowded_history crowded_digest _ plain,
      of 1000 sample_stamp initial_state]
  have crowded: "loadContext (snd (before_compaction default_plugin crowded_event 1000 sample_stamp
       (initial_state, plain_fs))) sample_path = Inr (Some crowded_snapshot)"
    by (simp add: crowded_saved default_plugin_fields loadContext_def fs_readFile_def
        crowded_snapshot_def) (simp add: plain_fs_def initial_state_def)
  note blocks_saved =
    before_compaction_saves [OF blocks_gate blocks_history blocks_digest _ plain,
      of 1000 sample_stamp initial_state]
  have blocks: "loadContext (snd (before_compaction default_plugin blocks_event 1000 sample_stamp
       (initial_state, plain_fs))) sample_path = Inr (Some blocks_snapshot)"
    by (simp add: blocks_saved default_plugin_fields loadContext_def fs_readFile_def
        blocks_snapshot_def) (simp add: plain_fs_def initial_state_def)
  have crowded_missing: "\<not> sublist ''User: '' crowded_snapshot"
    by (simp add: crowded_snapshot_def snapshot_text_def sample_stamp_def show_nat.simps
        sublist_code)
  have blocks_missing: "\<not> sublist ''User: '' blocks_snapshot"
    by (simp add: blocks_snapshot_def snapshot_text_def sample_stamp_def show_nat.simps
        sublist_code)
  have refused: "loadContext (snd (before_compaction default_plugin scenario_event 1000 sample_stamp
       (initial_state, readonly_fs))) sample_path = Inr None"
    by (simp add: before_compaction_refused_write readonly_fs_def loadContext_def fs_readFile_def
        plain_fs_def)
  show ?thesis
    using crowded_gate blocks_gate scenario_event_qualifies crowded blocks crowded_missing
      blocks_missing refused
    by simp
qed

end
